theory Spec2Isabelle
  imports Main "HOL-Library.Multiset"
begin

section \<open>Data model\<close>

text \<open>
  The game is one React component, \<open>App\<close> (src/unnamed/part_000, second document), and
  one service function, \<open>getVocabHint\<close> (src/unnamed/part_000, first document, and the
  copy bundled at the end of src/index.tsx). The declarations of \<open>./types\<close> and the
  table of \<open>./vocabulary\<close> are not among the sources: the records below hold the fields
  the code reads and writes, and the vocabulary table is a parameter of the model.
\<close>

type_synonym vocab_id = string

text \<open>
  \<open>GameList\<close>: the code names the member \<open>ListA\<close> only; any other member is given by
  its string value. \<open>GameMode\<close>: the code compares with \<open>EnglishToArabic\<close> only.
\<close>

datatype GameList = ListA | OtherList string

datatype GameMode = EnglishToArabic | OtherMode

text \<open>
  \<open>Difficulty\<close> is a string enum: the code calls \<open>includes\<close> on its values and the
  select element assigns \<open>e.target.value\<close> to it.
\<close>

type_synonym Difficulty = string

record VocabItem =
  id_vocab :: vocab_id
  entry :: string
  meaningArabic :: string
  meaningEnglish :: string
  pos :: string

type_synonym vocabulary = "GameList \<Rightarrow> VocabItem list"

datatype CardType = TermCard | MatchCard

text \<open>Term cards are pushed without the \<open>isArabic\<close> property: \<open>None\<close> is \<open>undefined\<close>.\<close>

record CardData =
  vocabId :: vocab_id
  uniqueId :: string
  content :: string
  isArabic :: "bool option"
  cardType :: CardType

record GameState =
  studentName :: string
  studentClass :: string
  score :: nat
  timer :: nat
  isGameStarted :: bool
  isGameOver :: bool
  matchedPairs :: "vocab_id list"
  selectedList :: GameList
  mode :: GameMode
  difficulty :: Difficulty

datatype SubmitStatus = Idle | Submitting | Success | Error

text \<open>The JSON body of the POST made by \<open>submitResultToSheet\<close>.\<close>

record SheetRow =
  row_studentName :: string
  row_studentClass :: string
  row_score :: nat
  row_timer :: nat
  row_selectedList :: GameList
  row_difficulty :: Difficulty
  row_mode :: GameMode

text \<open>
  A call \<open>playSound(freq, type, duration, volume)\<close> that reaches the oscillator: the
  frequency in Hz, the duration in milliseconds, the volume in hundredths.
\<close>

datatype OscillatorType = Sine | Triangle

datatype tone = Tone nat OscillatorType nat nat

text \<open>
  The two callbacks that \<open>handleCardClick\<close> hands to \<open>setTimeout\<close>. Each is a closure
  over the render in which the click was handled: the match callback (600 ms) reads that
  render's \<open>cards\<close>, \<open>newFlipped\<close> and \<open>isMuted\<close>, the mismatch callback (1200 ms)
  reads \<open>isMuted\<close>.
\<close>

datatype timeout =
    MatchTimeout "CardData list" "int list" bool
  | MismatchTimeout bool

text \<open>
  The state of \<open>App\<close>: its \<open>useState\<close> cells, the \<open>audioCtx\<close> ref of \<open>useAudio\<close>
  (\<open>True\<close> once the context exists), and what the component has handed to the
  environment: the tones it played, the resolution callbacks waiting in \<open>setTimeout\<close>,
  the POST requests it made, and how many of them are still awaited. The cells \<open>hint\<close>
  and \<open>isLoadingHint\<close> are written by \<open>showHint\<close> only and read by the hint banner
  only; they are left out.
\<close>

record App =
  gameState :: GameState
  isMuted :: bool
  cards :: "CardData list"
  flippedCards :: "int list"
  submitStatus :: SubmitStatus
  audioCtx :: bool
  sounds :: "tone list"
  timeouts :: "timeout list"
  requests :: "SheetRow list"
  inflight :: nat

text \<open>
  Modelled from the spec: the members of the enum \<open>Difficulty\<close> are declared in
  \<open>./types\<close>, which is not among the sources. The spec names the settings Easy, Medium
  and Hard; the code tests a value with \<open>includes('Hard')\<close>, \<open>includes('Medium')\<close>
  and \<open>includes('Easy')\<close>.
\<close>

definition Difficulty_Easy :: Difficulty where
  "Difficulty_Easy = ''Easy''"

definition Difficulty_Medium :: Difficulty where
  "Difficulty_Medium = ''Medium''"

definition Difficulty_Hard :: Difficulty where
  "Difficulty_Hard = ''Hard''"

text \<open>The initial values of the \<open>useState\<close> cells.\<close>

definition initialGameState :: GameState where
  "initialGameState =
     \<lparr> studentName = [], studentClass = [], score = 0, timer = 0,
       isGameStarted = False, isGameOver = False, matchedPairs = [],
       selectedList = ListA, mode = EnglishToArabic, difficulty = Difficulty_Easy \<rparr>"

definition initialApp :: App where
  "initialApp =
     \<lparr> gameState = initialGameState, isMuted = False, cards = [], flippedCards = [],
       submitStatus = Idle, audioCtx = False, sounds = [], timeouts = [],
       requests = [], inflight = 0 \<rparr>"

section \<open>Audio (\<open>useAudio\<close>)\<close>

text \<open>
  \<open>playSound\<close> returns at once while the context does not exist, and catches whatever
  the Web Audio calls throw: it reads and writes nothing of the game.
\<close>

definition initAudio :: "App \<Rightarrow> App" where
  "initAudio s = (if \<not> audioCtx s then s\<lparr>audioCtx := True\<rparr> else s)"

definition playSound :: "nat \<Rightarrow> OscillatorType \<Rightarrow> nat \<Rightarrow> nat \<Rightarrow> App \<Rightarrow> App" where
  "playSound freq ty duration volume s =
     (if \<not> audioCtx s then s else s\<lparr>sounds := sounds s @ [Tone freq ty duration volume]\<rparr>)"

definition playFlip :: "App \<Rightarrow> App" where
  "playFlip s = playSound 400 Sine 100 5 s"

text \<open>
  The second tone of \<open>playMatch\<close> is started by a timer of its own, 100 ms later; that
  timer calls \<open>playSound\<close> and nothing else, and the log takes the tone at once.
\<close>

definition playMatch :: "App \<Rightarrow> App" where
  "playMatch s = playSound 800 Sine 150 10 (playSound 600 Sine 100 10 s)"

definition playError :: "App \<Rightarrow> App" where
  "playError s = playSound 150 Triangle 300 10 s"

section \<open>Deck building (\<open>initGame\<close>)\<close>

text \<open>\<open>String.prototype.includes\<close>.\<close>

fun includes_str :: "string \<Rightarrow> string \<Rightarrow> bool" where
  "includes_str [] sub = (sub = [])"
| "includes_str (c # cs) sub = (take (length sub) (c # cs) = sub \<or> includes_str cs sub)"

text \<open>
  \<open>xs.sort(() => Math.random() - 0.5)\<close>: with a comparator that answers at random the
  order of the result is implementation-defined, and the result holds the elements of
  \<open>xs\<close>. The model takes the order from a list of draws: each draw picks the next
  element among those left; when the draws run out the rest stays in place.
\<close>

fun shuffle_with :: "nat list \<Rightarrow> 'a list \<Rightarrow> 'a list" where
  "shuffle_with rs [] = []"
| "shuffle_with [] (x # xs) = x # xs"
| "shuffle_with (r # rs) (x # xs) =
     (let k = r mod length (x # xs)
      in (x # xs) ! k # shuffle_with rs (take k (x # xs) @ drop (Suc k) (x # xs)))"

definition wordCount :: "Difficulty \<Rightarrow> nat" where
  "wordCount d = (if includes_str d ''Hard'' then 20 else if includes_str d ''Medium'' then 15 else 10)"

definition termCard :: "VocabItem \<Rightarrow> CardData" where
  "termCard item =
     \<lparr> vocabId = id_vocab item, uniqueId = id_vocab item @ ''-t'', content = entry item,
       isArabic = None, cardType = TermCard \<rparr>"

definition matchCard :: "GameMode \<Rightarrow> VocabItem \<Rightarrow> CardData" where
  "matchCard m item =
     \<lparr> vocabId = id_vocab item, uniqueId = id_vocab item @ ''-m'',
       content = (if m = EnglishToArabic then meaningArabic item else meaningEnglish item),
       isArabic = Some (m = EnglishToArabic), cardType = MatchCard \<rparr>"

text \<open>The \<open>forEach\<close> loop that pushes two cards for each item of the pool.\<close>

fun gameCards :: "GameMode \<Rightarrow> VocabItem list \<Rightarrow> CardData list" where
  "gameCards m [] = []"
| "gameCards m (item # pool) = termCard item # matchCard m item # gameCards m pool"

text \<open>
  \<open>initGame\<close>, with the vocabulary table and the draws of its two shuffles as
  arguments. \<open>slice(0, wordCount)\<close> is \<open>take\<close>: it stops at the end of the list.
\<close>

definition initGame :: "vocabulary \<Rightarrow> nat list \<Rightarrow> nat list \<Rightarrow> App \<Rightarrow> App" where
  "initGame VOCABULARY r1 r2 s =
     (let s1 = initAudio s;
          s2 = s1\<lparr>submitStatus := Idle\<rparr>;
          gs = gameState s;
          pool = take (wordCount (difficulty gs))
                   (shuffle_with r1 (VOCABULARY (selectedList gs)))
      in s2\<lparr> cards := shuffle_with r2 (gameCards (mode gs) pool),
             flippedCards := [],
             gameState := gs\<lparr> score := 0, timer := 0, isGameStarted := True,
                               isGameOver := False, matchedPairs := [] \<rparr> \<rparr>)"

section \<open>Flipping cards (\<open>handleCardClick\<close>)\<close>

text \<open>
  Reading a property of \<open>undefined\<close> throws a \<open>TypeError\<close>; \<open>cards[index]\<close> is
  \<open>undefined\<close> when \<open>index\<close> is not an index of the array.
\<close>

datatype fault = TypeError

definition card_at :: "CardData list \<Rightarrow> int \<Rightarrow> CardData option" where
  "card_at cs i = (if 0 \<le> i \<and> i < int (length cs) then Some (cs ! nat i) else None)"

text \<open>
  The guard is evaluated left to right and stops at the first disjunct that holds, so
  \<open>cards[index].vocabId\<close> is read only when the first two do not. A fault in the
  comparison of the two cards is reported as the result of the whole call.
\<close>

definition handleCardClick :: "int \<Rightarrow> App \<Rightarrow> fault + App" where
  "handleCardClick index s =
     (if length (flippedCards s) = 2 \<or> index \<in> set (flippedCards s) then Inr s
      else case card_at (cards s) index of
        None \<Rightarrow> Inl TypeError
      | Some c \<Rightarrow>
          if vocabId c \<in> set (matchedPairs (gameState s)) then Inr s
          else
            let s1 = (if \<not> isMuted s then playFlip s else s);
                newFlipped = flippedCards s @ [index];
                s2 = s1\<lparr>flippedCards := newFlipped\<rparr>
            in if length newFlipped = 2 then
                 (case card_at (cards s) (newFlipped ! 0) of
                    None \<Rightarrow> Inl TypeError
                  | Some a \<Rightarrow>
                      (case card_at (cards s) (newFlipped ! 1) of
                         None \<Rightarrow> Inl TypeError
                       | Some b \<Rightarrow>
                           if vocabId a = vocabId b
                           then Inr (s2\<lparr>timeouts := timeouts s2 @
                                        [MatchTimeout (cards s) newFlipped (isMuted s)]\<rparr>)
                           else Inr (s2\<lparr>timeouts := timeouts s2 @
                                        [MismatchTimeout (isMuted s)]\<rparr>)))
               else Inr s2)"

text \<open>
  \<open>cards[newFlipped[0]]\<close> as the match callback reads it: \<open>undefined\<close> when the
  selection it holds is empty or its first index is not an index of the deck it holds.
\<close>

definition first_card :: "CardData list \<Rightarrow> int list \<Rightarrow> CardData option" where
  "first_card cs nf = (case nf of [] \<Rightarrow> None | i # rest \<Rightarrow> card_at cs i)"

text \<open>
  The \<open>k\<close>-th waiting callback fires and leaves the queue. The match callback applies
  its updater to the state of the moment it fires (\<open>prev\<close>), with the deck and the
  selection of the click.
\<close>

definition fireTimeout :: "nat \<Rightarrow> App \<Rightarrow> fault + App" where
  "fireTimeout k s =
     (if k < length (timeouts s) then
        (let s0 = s\<lparr>timeouts := take k (timeouts s) @ drop (Suc k) (timeouts s)\<rparr>
         in case timeouts s ! k of
              MatchTimeout cs newFlipped muted \<Rightarrow>
                (case first_card cs newFlipped of
                   None \<Rightarrow> Inl TypeError
                 | Some c \<Rightarrow>
                     let s1 = (if \<not> muted then playMatch s0 else s0);
                         prev = gameState s1;
                         newMatched = matchedPairs prev @ [vocabId c]
                     in Inr (s1\<lparr> gameState :=
                                    prev\<lparr> matchedPairs := newMatched,
                                          score := score prev + 10,
                                          isGameOver := (2 * length newMatched = length cs) \<rparr>,
                                  flippedCards := [] \<rparr>))
            | MismatchTimeout muted \<Rightarrow>
                Inr ((if \<not> muted then playError s0 else s0)\<lparr>flippedCards := []\<rparr>))
      else Inr s)"

section \<open>Submitting the result (\<open>submitResultToSheet\<close>)\<close>

definition sheetRow :: "GameState \<Rightarrow> SheetRow" where
  "sheetRow gs =
     \<lparr> row_studentName = studentName gs, row_studentClass = studentClass gs,
       row_score = score gs, row_timer = timer gs, row_selectedList = selectedList gs,
       row_difficulty = difficulty gs, row_mode = mode gs \<rparr>"

text \<open>The part of \<open>submitResultToSheet\<close> that runs up to the \<open>await\<close>.\<close>

definition submitResultToSheet :: "App \<Rightarrow> App" where
  "submitResultToSheet s =
     (if submitStatus s = Submitting \<or> submitStatus s = Success then s
      else s\<lparr> submitStatus := Submitting,
              requests := requests s @ [sheetRow (gameState s)],
              inflight := Suc (inflight s) \<rparr>)"

text \<open>The part after the \<open>await\<close>: the request resolved (\<open>True\<close>) or was rejected.\<close>

definition fetchSettled :: "bool \<Rightarrow> App \<Rightarrow> App" where
  "fetchSettled ok s =
     (if 0 < inflight s
      then s\<lparr> inflight := inflight s - 1, submitStatus := (if ok then Success else Error) \<rparr>
      else s)"

text \<open>
  \<open>useEffect(() => { if (gameState.isGameOver) submitResultToSheet(); },
  [gameState.isGameOver])\<close>: the effect runs after a render in which \<open>isGameOver\<close>
  differs from its value in the render before.
\<close>

definition runEffects :: "App \<Rightarrow> App \<Rightarrow> App" where
  "runEffects old new =
     (if isGameOver (gameState new) \<noteq> isGameOver (gameState old)
      then (if isGameOver (gameState new) then submitResultToSheet new else new)
      else new)"

section \<open>The component as a transition system\<close>

datatype event =
    SetStudentName string
  | SetStudentClass string
  | SetDifficulty Difficulty
  | SetSelectedList GameList
  | ToggleMute
  | StartTraining "nat list" "nat list"
  | CardClick int
  | Timeout nat
  | Tick
  | FetchSettled bool
  | NewChallenge

fun handler :: "vocabulary \<Rightarrow> event \<Rightarrow> App \<Rightarrow> fault + App" where
  "handler V (SetStudentName n) s = Inr (s\<lparr>gameState := (gameState s)\<lparr>studentName := n\<rparr>\<rparr>)"
| "handler V (SetStudentClass c) s = Inr (s\<lparr>gameState := (gameState s)\<lparr>studentClass := c\<rparr>\<rparr>)"
| "handler V (SetDifficulty d) s = Inr (s\<lparr>gameState := (gameState s)\<lparr>difficulty := d\<rparr>\<rparr>)"
| "handler V (SetSelectedList l) s = Inr (s\<lparr>gameState := (gameState s)\<lparr>selectedList := l\<rparr>\<rparr>)"
| "handler V ToggleMute s = Inr (s\<lparr>isMuted := \<not> isMuted s\<rparr>)"
| "handler V (StartTraining r1 r2) s = Inr (initGame V r1 r2 s)"
| "handler V (CardClick i) s = handleCardClick i s"
| "handler V (Timeout k) s = fireTimeout k s"
| "handler V Tick s = Inr (s\<lparr>gameState := (gameState s)\<lparr>timer := timer (gameState s) + 1\<rparr>\<rparr>)"
| "handler V (FetchSettled ok) s = Inr (fetchSettled ok s)"
| "handler V NewChallenge s = Inr (s\<lparr>gameState := (gameState s)\<lparr>isGameStarted := False\<rparr>\<rparr>)"

definition step :: "vocabulary \<Rightarrow> event \<Rightarrow> App \<Rightarrow> fault + App" where
  "step V e s = (case handler V e s of Inl f \<Rightarrow> Inl f | Inr s' \<Rightarrow> Inr (runEffects s s'))"

text \<open>
  What the rendered screen offers. \<open>App\<close> returns the setup screen while
  \<open>isGameStarted\<close> is false, the result screen when \<open>isGameOver\<close> is true, and the
  board otherwise. The inputs and the Start Training button (disabled while the name or
  the class is empty) are on the setup screen; the cards, each with its own index as the
  argument of \<open>handleCardClick\<close>, are on the board; New Challenge is on the result
  screen; the mute button is in the header of the setup screen and of the board. The
  interval that ticks exists while the game is started and not over. A callback fires
  only while it waits, a request settles only while it is awaited.
\<close>

fun enabled :: "event \<Rightarrow> App \<Rightarrow> bool" where
  "enabled (SetStudentName n) s = (\<not> isGameStarted (gameState s))"
| "enabled (SetStudentClass c) s = (\<not> isGameStarted (gameState s))"
| "enabled (SetDifficulty d) s = (\<not> isGameStarted (gameState s))"
| "enabled (SetSelectedList l) s = (\<not> isGameStarted (gameState s))"
| "enabled ToggleMute s = (\<not> isGameStarted (gameState s) \<or> \<not> isGameOver (gameState s))"
| "enabled (StartTraining r1 r2) s =
     (\<not> isGameStarted (gameState s) \<and> studentName (gameState s) \<noteq> []
      \<and> studentClass (gameState s) \<noteq> [])"
| "enabled (CardClick i) s =
     (isGameStarted (gameState s) \<and> \<not> isGameOver (gameState s)
      \<and> 0 \<le> i \<and> i < int (length (cards s)))"
| "enabled (Timeout k) s = (k < length (timeouts s))"
| "enabled Tick s = (isGameStarted (gameState s) \<and> \<not> isGameOver (gameState s))"
| "enabled (FetchSettled ok) s = (0 < inflight s)"
| "enabled NewChallenge s = (isGameStarted (gameState s) \<and> isGameOver (gameState s))"

inductive reachable :: "vocabulary \<Rightarrow> App \<Rightarrow> bool" for V :: vocabulary where
  reachable_init: "reachable V initialApp"
| reachable_step: "reachable V s \<Longrightarrow> enabled e s \<Longrightarrow> step V e s = Inr s' \<Longrightarrow> reachable V s'"

text \<open>
  Running a list of events from a state: \<open>None\<close> when an event is not offered in the
  state it meets, or faults.
\<close>

fun exec :: "vocabulary \<Rightarrow> event list \<Rightarrow> App \<Rightarrow> App option" where
  "exec V [] s = Some s"
| "exec V (e # es) s =
     (if enabled e s then (case step V e s of Inl f \<Rightarrow> None | Inr s' \<Rightarrow> exec V es s')
      else None)"

text \<open>The states a run passes through, the first one included.\<close>

fun states :: "vocabulary \<Rightarrow> event list \<Rightarrow> App \<Rightarrow> App list" where
  "states V [] s = [s]"
| "states V (e # es) s =
     s # (if enabled e s then (case step V e s of Inl f \<Rightarrow> [] | Inr s' \<Rightarrow> states V es s')
          else [])"

text \<open>
  What is left of a state when the mute flag, the tones played and the mute flag held by
  the waiting callbacks are blanked.
\<close>

fun unmute :: "timeout \<Rightarrow> timeout" where
  "unmute (MatchTimeout cs nf m) = MatchTimeout cs nf False"
| "unmute (MismatchTimeout m) = MismatchTimeout False"

definition low :: "App \<Rightarrow> App" where
  "low s = s\<lparr> isMuted := False, sounds := [], timeouts := map unmute (timeouts s) \<rparr>"

section \<open>The hint service (\<open>getVocabHint\<close>)\<close>

text \<open>
  The request handed to \<open>ai.models.generateContent\<close>, with the key the client was made
  with. The service is a parameter: it throws (or rejects) with some value, or answers
  with a response whose \<open>text\<close> may be \<open>undefined\<close>. A value thrown by the
  constructor \<open>new GoogleGenAI\<close>, inside the same \<open>try\<close>, is an \<open>Inl\<close> of the
  service as well.
\<close>

record HintRequest =
  req_apiKey :: string
  req_model :: string
  req_contents :: string

datatype thrown = Thrown string

type_synonym hint_service = "HintRequest \<Rightarrow> thrown + string option"

text \<open>JavaScript truthiness of a value that is a string or \<open>undefined\<close>.\<close>

fun truthy :: "string option \<Rightarrow> bool" where
  "truthy None = False"
| "truthy (Some k) = (k \<noteq> [])"

definition hintRequest :: "string \<Rightarrow> string \<Rightarrow> string \<Rightarrow> HintRequest" where
  "hintRequest key word p =
     \<lparr> req_apiKey = key, req_model = ''gemini-3-flash-preview'',
       req_contents =
         ''Provide a very short, simple example sentence for the English word '' @ [CHR 0x22]
         @ word @ [CHR 0x22] @ '' (part of speech: '' @ p @ ''). Keep it under 15 words.'' \<rparr>"

text \<open>The \<open>try\<close> block: the value of \<open>response.text || "Match the terms to learn more."\<close>.\<close>

definition tryGenerate :: "hint_service \<Rightarrow> HintRequest \<Rightarrow> thrown + string" where
  "tryGenerate svc req =
     (case svc req of
        Inl e \<Rightarrow> Inl e
      | Inr text \<Rightarrow> Inr (case text of
                          None \<Rightarrow> ''Match the terms to learn more.''
                        | Some t \<Rightarrow> if t \<noteq> [] then t else ''Match the terms to learn more.''))"

text \<open>
  What the identifier \<open>process\<close> stands for when the key is looked up: nothing
  (\<open>typeof process\<close> is \<open>'undefined'\<close>), an object without an \<open>env\<close> property, or
  an object whose \<open>env.API_KEY\<close> has the given value (\<open>None\<close> is \<open>undefined\<close>).
\<close>

datatype process_obj = ProcessUndefined | ProcessNoEnv | ProcessEnv "string option"

text \<open>
  The statement at the top of the module of src/unnamed/part_000, run once when the
  module is loaded: with a \<open>window\<close>, \<open>window.process = window.process || { env: {} }\<close>.
  An object that is already there is kept as it is, with or without \<open>env\<close>.
\<close>

definition ensureProcess :: "bool \<Rightarrow> process_obj \<Rightarrow> process_obj" where
  "ensureProcess hasWindow pr =
     (if hasWindow
      then (case pr of
              ProcessUndefined \<Rightarrow> ProcessEnv None
            | ProcessNoEnv \<Rightarrow> ProcessNoEnv
            | ProcessEnv k \<Rightarrow> ProcessEnv k)
      else pr)"

text \<open>
  The expression \<open>process.env.API_KEY\<close>: a \<open>ReferenceError\<close> when \<open>process\<close> is
  not defined, a \<open>TypeError\<close> when \<open>process.env\<close> is \<open>undefined\<close>.
\<close>

definition process_env_API_KEY :: "process_obj \<Rightarrow> thrown + string option" where
  "process_env_API_KEY pr =
     (case pr of
        ProcessUndefined \<Rightarrow> Inl (Thrown ''ReferenceError'')
      | ProcessNoEnv \<Rightarrow> Inl (Thrown ''TypeError'')
      | ProcessEnv k \<Rightarrow> Inr k)"

text \<open>
  \<open>getVocabHint\<close> of src/unnamed/part_000. Its first argument is \<open>process\<close> as the
  call finds it. The key is read before the \<open>try\<close>, so what the read throws rejects
  the promise. The result is the settled promise, \<open>Inl\<close> for a rejection, together
  with the requests made to the service.
\<close>

definition getVocabHint ::
  "process_obj \<Rightarrow> hint_service \<Rightarrow> string \<Rightarrow> string \<Rightarrow> (thrown + string) \<times> HintRequest list" where
  "getVocabHint pr svc word p =
     (case process_env_API_KEY pr of
        Inl e \<Rightarrow> (Inl e, [])
      | Inr apiKey \<Rightarrow>
          (case apiKey of
             None \<Rightarrow> (Inr ''Complete the match to learn this word!'', [])
           | Some key \<Rightarrow>
               if key = [] then (Inr ''Complete the match to learn this word!'', [])
               else (case tryGenerate svc (hintRequest key word p) of
                       Inl e \<Rightarrow> Inr ''Try matching the terms!''
                     | Inr t \<Rightarrow> Inr t,
                     [hintRequest key word p])))"

text \<open>
  The copy of \<open>getVocabHint\<close> at the end of src/index.tsx looks the key up as
  \<open>(window as any).process?.env?.API_KEY || (typeof process !== 'undefined' ?
  process.env.API_KEY : '')\<close>, before the \<open>try\<close> as well. \<open>window_API_KEY\<close> is
  the value of the left operand, whose optional chaining never throws;
  \<open>process_global\<close> is what \<open>process\<close> stands for in the right operand, which
  tests \<open>typeof process\<close> and then reads \<open>process.env.API_KEY\<close> unguarded. The
  copy runs in a page (src/index.tsx assigns \<open>window.onerror\<close> when it is loaded), so
  \<open>window\<close> itself is defined.
\<close>

record HintEnv =
  window_API_KEY :: "string option"
  process_global :: process_obj

definition apiKey_index :: "HintEnv \<Rightarrow> thrown + string option" where
  "apiKey_index env =
     (if truthy (window_API_KEY env) then Inr (window_API_KEY env)
      else (case process_global env of
              ProcessUndefined \<Rightarrow> Inr (Some [])
            | ProcessNoEnv \<Rightarrow> process_env_API_KEY ProcessNoEnv
            | ProcessEnv k \<Rightarrow> process_env_API_KEY (ProcessEnv k)))"

definition getVocabHint_index ::
  "HintEnv \<Rightarrow> hint_service \<Rightarrow> string \<Rightarrow> string \<Rightarrow> (thrown + string) \<times> HintRequest list" where
  "getVocabHint_index env svc word p =
     (case apiKey_index env of
        Inl e \<Rightarrow> (Inl e, [])
      | Inr apiKey \<Rightarrow>
          (case apiKey of
             None \<Rightarrow> (Inr ''Complete the match to learn this word!'', [])
           | Some key \<Rightarrow>
               if key = [] then (Inr ''Complete the match to learn this word!'', [])
               else (case tryGenerate svc (hintRequest key word p) of
                       Inl e \<Rightarrow> Inr ''Keep matching! You are doing great!''
                     | Inr t \<Rightarrow> Inr t,
                     [hintRequest key word p])))"

section \<open>Sample data\<close>

definition cat :: VocabItem where
  "cat = \<lparr> id_vocab = ''a1'', entry = ''cat'', meaningArabic = ''qitta'',
           meaningEnglish = ''a small pet that purrs'', pos = ''noun'' \<rparr>"

definition run :: VocabItem where
  "run = \<lparr> id_vocab = ''a2'', entry = ''run'', meaningArabic = ''yarkud'',
           meaningEnglish = ''to move fast on foot'', pos = ''verb'' \<rparr>"

text \<open>A table with the two words in every list, one with a single word, one with none.\<close>

definition twoWords :: vocabulary where
  "twoWords l = [cat, run]"

definition oneWord :: vocabulary where
  "oneWord l = [cat]"

definition noWords :: vocabulary where
  "noWords l = []"

text \<open>The learner fills in the form and starts; the draws leave every order as it is.\<close>

definition signIn :: "event list" where
  "signIn = [SetStudentName ''Dana'', SetStudentClass ''7B'', StartTraining [] []]"

text \<open>The states that the sample runs end in.\<close>

definition after :: "vocabulary \<Rightarrow> event list \<Rightarrow> App" where
  "after V es = (case exec V es initialApp of Some s \<Rightarrow> s | None \<Rightarrow> initialApp)"

text \<open>Sample runs on the board: a pair is selected; it is resolved; a whole game.\<close>

definition pairFlipped :: "event list" where
  "pairFlipped = signIn @ [CardClick 0, CardClick 1]"

definition pairMatched :: "event list" where
  "pairMatched = pairFlipped @ [Timeout 0]"

text \<open>
  A second game on the one-word table, started while the request of the first game is
  still awaited; the request resolves during the second game.
\<close>

definition secondGameFlipped :: "event list" where
  "secondGameFlipped =
     pairMatched @ [NewChallenge, StartTraining [] [], FetchSettled True,
                    CardClick 0, CardClick 1]"

definition secondGame :: "event list" where
  "secondGame = secondGameFlipped @ [Timeout 0]"

text \<open>The same two games, the request of the first one resolving before the second starts.\<close>

definition secondGameInOrder :: "event list" where
  "secondGameInOrder =
     pairMatched @ [FetchSettled True, NewChallenge, StartTraining [] [],
                    CardClick 0, CardClick 1, Timeout 0]"

text \<open>The part of a state that the game is played on.\<close>

definition gameView :: "App \<Rightarrow> GameState \<times> CardData list \<times> int list" where
  "gameView s = (gameState s, cards s, flippedCards s)"

text \<open>Three hint services: one that fails, one that answers, one that answers nothing.\<close>

definition offline :: hint_service where
  "offline req = Inl (Thrown ''Failed to fetch'')"

definition answering :: hint_service where
  "answering req = Inr (Some ''The cat sat on the mat.'')"

definition silent :: hint_service where
  "silent req = Inr None"


definition withKey :: HintEnv where
  "withKey = \<lparr> window_API_KEY = Some ''k-123'', process_global = ProcessUndefined \<rparr>"

definition noEnv :: HintEnv where
  "noEnv = \<lparr> window_API_KEY = None, process_global = ProcessNoEnv \<rparr>"

section \<open>The invariant of the reachable states\<close>

text \<open>
  A waiting match callback holds the deck and the selection of the state it waits in,
  and the two selected cards have the same \<open>vocabId\<close>.
\<close>

definition resolves :: "App \<Rightarrow> timeout \<Rightarrow> bool" where
  "resolves s t =
     (case t of
        MatchTimeout cs nf m \<Rightarrow>
          cs = cards s \<and> nf = flippedCards s
          \<and> vocabId (cards s ! nat (nf ! 0)) = vocabId (cards s ! nat (nf ! 1))
      | MismatchTimeout m \<Rightarrow> True)"

definition inv :: "App \<Rightarrow> bool" where
  "inv s \<longleftrightarrow>
     score (gameState s) = 10 * length (matchedPairs (gameState s))
   \<and> distinct (matchedPairs (gameState s))
   \<and> (\<forall>i \<in> set (flippedCards s). 0 \<le> i \<and> i < int (length (cards s))
        \<and> vocabId (cards s ! nat i) \<notin> set (matchedPairs (gameState s)))
   \<and> length (flippedCards s) \<le> 2
   \<and> (if length (flippedCards s) = 2 then (\<exists>t. timeouts s = [t] \<and> resolves s t)
       else timeouts s = [])
   \<and> (isGameOver (gameState s) \<longleftrightarrow>
        matchedPairs (gameState s) \<noteq> []
        \<and> 2 * length (matchedPairs (gameState s)) = length (cards s))
   \<and> (\<not> isGameStarted (gameState s) \<or> isGameOver (gameState s) \<longrightarrow> flippedCards s = [])"

section \<open>Preservation of the invariant\<close>

lemma inv_initialApp: "inv initialApp"
  by (simp add: inv_def initialApp_def initialGameState_def)

lemma inv_playSound [simp]: "inv (playSound f ty d v s) = inv s"
  by (simp add: inv_def playSound_def resolves_def split: timeout.splits)

lemma inv_submit [simp]: "inv (submitResultToSheet s) = inv s"
  by (simp add: inv_def submitResultToSheet_def resolves_def split: timeout.splits)

lemma inv_fetchSettled [simp]: "inv (fetchSettled ok s) = inv s"
  by (simp add: inv_def fetchSettled_def resolves_def split: timeout.splits)


lemma inv_initGame: "inv s \<Longrightarrow> \<not> isGameStarted (gameState s) \<Longrightarrow> inv (initGame V r1 r2 s)"
  by (simp add: inv_def initGame_def initAudio_def Let_def)

lemma handleCardClick_same:
  assumes "handleCardClick i s = Inr s'"
  shows "gameState s' = gameState s \<and> cards s' = cards s"
  using assms
  by (simp add: handleCardClick_def Let_def playFlip_def playSound_def
      split: if_splits option.splits) auto

lemma handleCardClick_selection:
  assumes "handleCardClick i s = Inr s'" "s' \<noteq> s"
  shows "length (flippedCards s) \<noteq> 2 \<and> i \<notin> set (flippedCards s)
       \<and> 0 \<le> i \<and> i < int (length (cards s))
       \<and> vocabId (cards s ! nat i) \<notin> set (matchedPairs (gameState s))
       \<and> flippedCards s' = flippedCards s @ [i]"
  using assms
  by (simp add: handleCardClick_def Let_def playFlip_def playSound_def card_at_def
      split: if_splits option.splits) auto

lemma handleCardClick_timeouts:
  assumes "handleCardClick i s = Inr s'" "s' \<noteq> s"
  shows "if length (flippedCards s) = 1
         then (\<exists>t. timeouts s' = timeouts s @ [t] \<and> resolves s' t)
         else timeouts s' = timeouts s"
  using assms
  by (simp add: handleCardClick_def Let_def playFlip_def playSound_def card_at_def resolves_def
      split: if_splits option.splits) (auto simp: nth_append)

lemma inv_handleCardClick:
  assumes I: "inv s" and H: "handleCardClick i s = Inr s'"
    and E: "isGameStarted (gameState s)" "\<not> isGameOver (gameState s)"
  shows "inv s'"
proof (cases "s' = s")
  case True
  with I show ?thesis by simp
next
  case False
  note same = handleCardClick_same [OF H]
  note sel = handleCardClick_selection [OF H False]
  note tmo = handleCardClick_timeouts [OF H False]
  from I sel have "length (flippedCards s) < 2"
    by (auto simp: inv_def)
  then consider "flippedCards s = []" | j where "flippedCards s = [j]"
    by (cases "flippedCards s" rule: list.exhaust; cases "tl (flippedCards s)"; auto)
  then show ?thesis
  proof cases
    case 1
    with I sel tmo same E show ?thesis
      by (simp add: inv_def)
  next
    case 2
    with I sel tmo same E show ?thesis
      by (auto simp: inv_def)
  qed
qed

lemma fireTimeout_match:
  assumes "inv s" "timeouts s = [MatchTimeout cs nf m]"
  shows "\<exists>s'. fireTimeout 0 s = Inr s' \<and> timeouts s' = [] \<and> flippedCards s' = []
       \<and> cards s' = cards s
       \<and> gameState s' = (gameState s)
            \<lparr> matchedPairs := matchedPairs (gameState s) @ [vocabId (cards s ! nat (flippedCards s ! 0))],
              score := score (gameState s) + 10,
              isGameOver := (2 * length (matchedPairs (gameState s) @ [vocabId (cards s ! nat (flippedCards s ! 0))]) = length (cards s)) \<rparr>"
proof -
  from assms have two: "length (flippedCards s) = 2" and r: "resolves s (MatchTimeout cs nf m)"
    by (auto simp: inv_def split: if_splits)
  from r have eq: "cs = cards s" "nf = flippedCards s" by (simp_all add: resolves_def)
  from two obtain a b where ab: "flippedCards s = [a, b]"
    by (cases "flippedCards s" rule: list.exhaust; cases "tl (flippedCards s)"; auto)
  with assms(1) have "first_card (cards s) (flippedCards s) = Some (cards s ! nat (flippedCards s ! 0))"
    by (simp add: inv_def card_at_def first_card_def)
  with assms(2) eq show ?thesis
    by (simp add: fireTimeout_def Let_def playMatch_def playSound_def)
qed

lemma fireTimeout_mismatch:
  assumes "timeouts s = [MismatchTimeout m]"
  shows "\<exists>s'. fireTimeout 0 s = Inr s' \<and> timeouts s' = [] \<and> flippedCards s' = []
       \<and> cards s' = cards s \<and> gameState s' = gameState s"
  using assms by (simp add: fireTimeout_def Let_def playError_def playSound_def)

lemma inv_fireTimeout:
  assumes I: "inv s" and F: "fireTimeout k s = Inr s'" and K: "k < length (timeouts s)"
  shows "inv s'"
proof -
  from I K obtain t where t: "timeouts s = [t]" and two: "length (flippedCards s) = 2"
    by (auto simp: inv_def split: if_splits)
  with K have k: "k = 0" by simp
  show ?thesis
  proof (cases t)
    case (MatchTimeout cs nf m)
    from two have "flippedCards s ! 0 \<in> set (flippedCards s)" by simp
    with I have fresh: "vocabId (cards s ! nat (flippedCards s ! 0)) \<notin> set (matchedPairs (gameState s))"
      by (simp add: inv_def)
    from fireTimeout_match [OF I t [unfolded MatchTimeout]] F k I fresh show ?thesis
      by (auto simp: inv_def)
  next
    case (MismatchTimeout m)
    from fireTimeout_mismatch [OF t [unfolded MismatchTimeout]] F k I show ?thesis
      by (auto simp: inv_def)
  qed
qed

lemma inv_runEffects [simp]: "inv (runEffects old new) = inv new"
  by (simp add: runEffects_def)

lemma resolves_cong:
  "cards s' = cards s \<Longrightarrow> flippedCards s' = flippedCards s \<Longrightarrow> resolves s' t = resolves s t"
  by (cases t) (simp_all add: resolves_def)

lemma inv_cong:
  assumes "cards s' = cards s" "flippedCards s' = flippedCards s" "timeouts s' = timeouts s"
    "score (gameState s') = score (gameState s)"
    "matchedPairs (gameState s') = matchedPairs (gameState s)"
    "isGameOver (gameState s') = isGameOver (gameState s)"
    "isGameStarted (gameState s') \<or> flippedCards s = []"
    "inv s"
  shows "inv s'"
  using assms resolves_cong [of s' s] unfolding inv_def by auto

lemma inv_handler:
  assumes "inv s" "enabled e s" "handler V e s = Inr h"
  shows "inv h"
proof (cases e)
  case (CardClick i)
  with assms show ?thesis
    by (auto dest: inv_handleCardClick)
next
  case (Timeout k)
  with assms show ?thesis
    by (auto dest: inv_fireTimeout)
next
  case (StartTraining r1 r2)
  with assms show ?thesis
    by (auto simp: inv_initGame)
next
  case (FetchSettled ok)
  with assms show ?thesis
    by auto
next
  case NewChallenge
  with assms have "flippedCards s = []" by (simp add: inv_def)
  with NewChallenge assms show ?thesis
    by (intro inv_cong [of h s]) auto
next
  case Tick
  with assms show ?thesis
    by (intro inv_cong [of h s]) auto
next
  case ToggleMute
  with assms have "isGameStarted (gameState s) \<or> flippedCards s = []"
    by (auto simp: inv_def)
  with ToggleMute assms show ?thesis
    by (intro inv_cong [of h s]) auto
next
  case (SetStudentName n)
  with assms have "flippedCards s = []" by (simp add: inv_def)
  with SetStudentName assms show ?thesis
    by (intro inv_cong [of h s]) auto
next
  case (SetStudentClass n)
  with assms have "flippedCards s = []" by (simp add: inv_def)
  with SetStudentClass assms show ?thesis
    by (intro inv_cong [of h s]) auto
next
  case (SetDifficulty n)
  with assms have "flippedCards s = []" by (simp add: inv_def)
  with SetDifficulty assms show ?thesis
    by (intro inv_cong [of h s]) auto
next
  case (SetSelectedList n)
  with assms have "flippedCards s = []" by (simp add: inv_def)
  with SetSelectedList assms show ?thesis
    by (intro inv_cong [of h s]) auto
qed

lemma inv_step:
  assumes "inv s" "enabled e s" "step V e s = Inr s'"
  shows "inv s'"
proof -
  from assms(3) obtain h where h: "handler V e s = Inr h" and s': "s' = runEffects s h"
    by (auto simp: step_def split: sum.splits)
  from inv_handler [OF assms(1,2) h] s' show ?thesis
    by simp
qed

lemma reachable_inv: "reachable V s \<Longrightarrow> inv s"
  by (induction rule: reachable.induct) (auto intro: inv_initialApp inv_step)


lemma exec_reachable: "reachable V s \<Longrightarrow> exec V es s = Some s' \<Longrightarrow> reachable V s'"
proof (induction es arbitrary: s)
  case Nil
  then show ?case by simp
next
  case (Cons e es)
  from Cons.prems(2) obtain m where e: "enabled e s" and m: "step V e s = Inr m"
    and rest: "exec V es m = Some s'"
    by (auto split: if_splits sum.splits)
  from Cons.prems(1) e m have "reachable V m" by (rule reachable_step)
  then show ?case using rest by (rule Cons.IH)
qed

lemma after_reachable: "exec V es initialApp \<noteq> None \<Longrightarrow> reachable V (after V es)"
  by (auto simp: after_def intro: exec_reachable [OF reachable_init])


section \<open>Rejected flips\<close>

text \<open>
  C3. \<open>handleCardClick\<close> returns the state it was given, whole (selection, score,
  matched list, timer, game-over flag, and everything else, tones included), when the
  selection already holds two indices, when the index is already selected, or when the
  card at the index has a \<open>vocabId\<close> that is already matched. It returns normally:
  the call is ignored, not an error. The same holds for the click as an event, effects
  included.
\<close>

theorem handleCardClick_rejected_unchanged:
  assumes "length (flippedCards s) = 2 \<or> index \<in> set (flippedCards s)
           \<or> (\<exists>c. card_at (cards s) index = Some c
                 \<and> vocabId c \<in> set (matchedPairs (gameState s)))"
  shows "handleCardClick index s = Inr s \<and> step V (CardClick index) s = Inr s"
proof -
  from assms have "handleCardClick index s = Inr s"
    by (auto simp: handleCardClick_def)
  then show ?thesis
    by (simp add: step_def runEffects_def)
qed

theorem handleCardClick_rejected_unchanged_witness:
  "handleCardClick 2 (after twoWords (signIn @ [CardClick 0, CardClick 1]))
     = Inr (after twoWords (signIn @ [CardClick 0, CardClick 1]))
   \<and> handleCardClick 0 (after twoWords (signIn @ [CardClick 0]))
     = Inr (after twoWords (signIn @ [CardClick 0]))
   \<and> handleCardClick 1 (after twoWords (signIn @ [CardClick 0, CardClick 1, Timeout 0]))
     = Inr (after twoWords (signIn @ [CardClick 0, CardClick 1, Timeout 0]))"
proof -
  have two: "length (flippedCards (after twoWords (signIn @ [CardClick 0, CardClick 1]))) = 2"
    by code_simp
  have selected: "0 \<in> set (flippedCards (after twoWords (signIn @ [CardClick 0])))"
    by code_simp
  have "card_at (cards (after twoWords (signIn @ [CardClick 0, CardClick 1, Timeout 0]))) 1
          = Some (matchCard EnglishToArabic cat)
        \<and> vocabId (matchCard EnglishToArabic cat)
            \<in> set (matchedPairs (gameState
                 (after twoWords (signIn @ [CardClick 0, CardClick 1, Timeout 0]))))"
    by code_simp
  then have matched: "\<exists>c. card_at (cards (after twoWords (signIn @ [CardClick 0, CardClick 1, Timeout 0]))) 1 = Some c
        \<and> vocabId c \<in> set (matchedPairs (gameState
                 (after twoWords (signIn @ [CardClick 0, CardClick 1, Timeout 0]))))"
    by blast
  from two selected matched show ?thesis
    using handleCardClick_rejected_unchanged
            [of "after twoWords (signIn @ [CardClick 0, CardClick 1])" 2 twoWords]
          handleCardClick_rejected_unchanged
            [of "after twoWords (signIn @ [CardClick 0])" 0 twoWords]
          handleCardClick_rejected_unchanged
            [of "after twoWords (signIn @ [CardClick 0, CardClick 1, Timeout 0])" 1 twoWords]
    by blast
qed

section \<open>Score and matched pairs\<close>

lemma gameState_runEffects [simp]: "gameState (runEffects old new) = gameState new"
  by (simp add: runEffects_def submitResultToSheet_def)

lemma cards_runEffects [simp]: "cards (runEffects old new) = cards new"
  by (simp add: runEffects_def submitResultToSheet_def)

lemma timeouts_runEffects [simp]: "timeouts (runEffects old new) = timeouts new"
  by (simp add: runEffects_def submitResultToSheet_def)

lemma handler_progress:
  assumes I: "inv s" and E: "enabled e s" and H: "handler V e s = Inr h"
    and N: "\<forall>r1 r2. e \<noteq> StartTraining r1 r2"
  shows "if (\<exists>k cs nf m. e = Timeout k \<and> timeouts s ! k = MatchTimeout cs nf m)
         then score (gameState h) = score (gameState s) + 10
              \<and> (\<exists>v. v \<notin> set (matchedPairs (gameState s))
                    \<and> matchedPairs (gameState h) = matchedPairs (gameState s) @ [v])
         else score (gameState h) = score (gameState s)
              \<and> matchedPairs (gameState h) = matchedPairs (gameState s)"
proof (cases e)
  case (CardClick i)
  with H handleCardClick_same [of i s h] show ?thesis by simp
next
  case (Timeout k)
  with I E obtain t where t: "timeouts s = [t]" and two: "length (flippedCards s) = 2"
    by (auto simp: inv_def split: if_splits)
  with E Timeout have k: "k = 0" by simp
  show ?thesis
  proof (cases t)
    case (MatchTimeout cs nf m)
    from two have "flippedCards s ! 0 \<in> set (flippedCards s)" by simp
    with I have "vocabId (cards s ! nat (flippedCards s ! 0)) \<notin> set (matchedPairs (gameState s))"
      by (simp add: inv_def)
    with fireTimeout_match [OF I t [unfolded MatchTimeout]] H Timeout k t MatchTimeout
    show ?thesis by auto
  next
    case (MismatchTimeout m)
    with fireTimeout_mismatch [OF t [unfolded MismatchTimeout]] H Timeout k t
    show ?thesis by auto
  qed
next
  case (StartTraining r1 r2)
  with N show ?thesis by simp
next
  case (FetchSettled ok)
  with H show ?thesis by (auto simp: fetchSettled_def)
qed (use H in auto)

text \<open>
  C1. In every reachable state the score is ten times the number of matched vocab ids.
  Every event of a session (every event but the reset, Start Training) keeps each
  matched id, never lowers the score, and changes score and matched list only when it
  is a match callback firing: then the score grows by 10 and the number of matched ids
  by one.
\<close>

theorem score_ten_per_matched_pair:
  assumes "reachable V s"
  shows "score (gameState s) = 10 * card (set (matchedPairs (gameState s)))
       \<and> (\<forall>e s'. enabled e s \<and> step V e s = Inr s' \<and> (\<forall>r1 r2. e \<noteq> StartTraining r1 r2) \<longrightarrow>
            set (matchedPairs (gameState s)) \<subseteq> set (matchedPairs (gameState s'))
          \<and> score (gameState s) \<le> score (gameState s')
          \<and> (if (\<exists>k cs nf m. e = Timeout k \<and> timeouts s ! k = MatchTimeout cs nf m)
             then score (gameState s') = score (gameState s) + 10
                  \<and> card (set (matchedPairs (gameState s')))
                      = card (set (matchedPairs (gameState s))) + 1
             else score (gameState s') = score (gameState s)
                  \<and> matchedPairs (gameState s') = matchedPairs (gameState s)))"
proof -
  from assms have I: "inv s" by (rule reachable_inv)
  then have "score (gameState s) = 10 * card (set (matchedPairs (gameState s)))"
    by (simp add: inv_def distinct_card)
  moreover
  { fix e s'
    assume E: "enabled e s" and S: "step V e s = Inr s'"
      and N: "\<forall>r1 r2. e \<noteq> StartTraining r1 r2"
    from S obtain h where h: "handler V e s = Inr h" and s': "s' = runEffects s h"
      by (auto simp: step_def split: sum.splits)
    note P = handler_progress [OF I E h N]
    have "set (matchedPairs (gameState s)) \<subseteq> set (matchedPairs (gameState s'))
          \<and> score (gameState s) \<le> score (gameState s')
          \<and> (if (\<exists>k cs nf m. e = Timeout k \<and> timeouts s ! k = MatchTimeout cs nf m)
             then score (gameState s') = score (gameState s) + 10
                  \<and> card (set (matchedPairs (gameState s')))
                      = card (set (matchedPairs (gameState s))) + 1
             else score (gameState s') = score (gameState s)
                  \<and> matchedPairs (gameState s') = matchedPairs (gameState s))"
    proof (cases "\<exists>k cs nf m. e = Timeout k \<and> timeouts s ! k = MatchTimeout cs nf m")
      case True
      with P s' show ?thesis by auto
    next
      case False
      with P s' show ?thesis by auto
    qed }
  ultimately show ?thesis by blast
qed

theorem score_ten_per_matched_pair_witness:
  "score (gameState (after twoWords pairFlipped))
     = 10 * card (set (matchedPairs (gameState (after twoWords pairFlipped))))
   \<and> set (matchedPairs (gameState (after twoWords pairFlipped)))
       \<subseteq> set (matchedPairs (gameState (after twoWords pairMatched)))
   \<and> score (gameState (after twoWords pairMatched))
       = score (gameState (after twoWords pairFlipped)) + 10"
proof -
  have r: "reachable twoWords (after twoWords pairFlipped)"
    by (rule after_reachable) code_simp
  have e: "enabled (Timeout 0) (after twoWords pairFlipped)"
    by code_simp
  have st: "step twoWords (Timeout 0) (after twoWords pairFlipped)
              = Inr (after twoWords pairMatched)"
    by code_simp
  have m: "timeouts (after twoWords pairFlipped) ! 0
             = MatchTimeout (cards (after twoWords pairFlipped)) [0, 1] False"
    by code_simp
  from m have c: "\<exists>k cs nf m. Timeout 0 = Timeout k
        \<and> timeouts (after twoWords pairFlipped) ! k = MatchTimeout cs nf m"
    by blast
  have n: "\<forall>r1 r2. Timeout 0 \<noteq> StartTraining r1 r2"
    by simp
  from score_ten_per_matched_pair [OF r] e st c n show ?thesis
    by (metis (no_types, lifting))
qed

section \<open>Game over\<close>

text \<open>
  C2, as the code has it. In every reachable state \<open>isGameOver\<close> is true if and only
  if the deck is not empty and twice the number of matched vocab ids is the length of
  the deck. The flag is computed by the match callback only, so a session on an empty
  deck, where no callback ever fires, is never over.
\<close>

theorem game_over_iff_all_pairs_matched:
  assumes "reachable V s"
  shows "isGameOver (gameState s) \<longleftrightarrow>
           cards s \<noteq> [] \<and> card (set (matchedPairs (gameState s))) * 2 = length (cards s)"
proof -
  from assms have I: "inv s" by (rule reachable_inv)
  then have "card (set (matchedPairs (gameState s))) = length (matchedPairs (gameState s))"
    by (simp add: inv_def distinct_card)
  with I show ?thesis
    by (auto simp: inv_def)
qed

theorem game_over_iff_all_pairs_matched_witness:
  "(isGameOver (gameState (after oneWord pairMatched)) \<longleftrightarrow>
      cards (after oneWord pairMatched) \<noteq> []
      \<and> card (set (matchedPairs (gameState (after oneWord pairMatched)))) * 2
          = length (cards (after oneWord pairMatched)))
   \<and> isGameOver (gameState (after oneWord pairMatched))"
proof -
  have r: "reachable oneWord (after oneWord pairMatched)"
    by (rule after_reachable) code_simp
  have o: "isGameOver (gameState (after oneWord pairMatched))"
    by code_simp
  from game_over_iff_all_pairs_matched [OF r] o show ?thesis
    by blast
qed

text \<open>
  C2, as stated, fails on an empty deck: after Start Training on a list without words,
  and in the state the component is mounted in, no id is matched, the deck is empty and
  \<open>isGameOver\<close> is false.
\<close>

theorem game_over_empty_deck_counterexample:
  "exec noWords signIn initialApp = Some (after noWords signIn)
   \<and> \<not> (isGameOver (gameState (after noWords signIn)) \<longleftrightarrow>
          card (set (matchedPairs (gameState (after noWords signIn)))) * 2
            = length (cards (after noWords signIn)))
   \<and> \<not> (isGameOver (gameState initialApp) \<longleftrightarrow>
          card (set (matchedPairs (gameState initialApp))) * 2 = length (cards initialApp))"
  by code_simp

section \<open>The index of a flip\<close>

lemma handleCardClick_in_range:
  assumes I: "inv s" and R: "0 \<le> index" "index < int (length (cards s))"
  shows "\<exists>s'. handleCardClick index s = Inr s'"
proof (cases "length (flippedCards s) = 1")
  case True
  then obtain j where j: "flippedCards s = [j]"
    by (cases "flippedCards s") auto
  with I have "card_at (cards s) j = Some (cards s ! nat j)"
    by (simp add: inv_def card_at_def)
  with j R show ?thesis
    by (simp add: handleCardClick_def card_at_def Let_def)
next
  case False
  with R show ?thesis
    by (simp add: handleCardClick_def card_at_def Let_def)
qed

text \<open>
  C9. In a reachable state \<open>handleCardClick\<close> returns normally for every index of
  the deck. For an index outside the deck that gets past the first two guards (the
  selection does not hold two indices and does not hold this one) the read of
  \<open>cards[index].vocabId\<close> throws a \<open>TypeError\<close>.
\<close>

theorem handleCardClick_needs_index_in_range:
  "(reachable V s \<and> 0 \<le> index \<and> index < int (length (cards s))
      \<longrightarrow> (\<exists>s'. handleCardClick index s = Inr s'))
   \<and> (length (flippedCards s) \<noteq> 2 \<and> index \<notin> set (flippedCards s)
      \<and> \<not> (0 \<le> index \<and> index < int (length (cards s)))
      \<longrightarrow> handleCardClick index s = Inl TypeError)"
  by (auto simp: handleCardClick_in_range reachable_inv)
     (auto simp: handleCardClick_def card_at_def)

theorem handleCardClick_needs_index_in_range_witness:
  "(\<exists>s'. handleCardClick 3 (after twoWords signIn) = Inr s')
   \<and> handleCardClick 4 (after twoWords signIn) = Inl TypeError
   \<and> handleCardClick (- 1) (after twoWords signIn) = Inl TypeError"
proof -
  have r: "reachable twoWords (after twoWords signIn)"
    by (rule after_reachable) code_simp
  have a: "(0::int) \<le> 3 \<and> 3 < int (length (cards (after twoWords signIn)))"
    by code_simp
  have b: "length (flippedCards (after twoWords signIn)) \<noteq> 2
      \<and> 4 \<notin> set (flippedCards (after twoWords signIn))
      \<and> \<not> (0 \<le> (4::int) \<and> 4 < int (length (cards (after twoWords signIn))))"
    by code_simp
  have c: "length (flippedCards (after twoWords signIn)) \<noteq> 2
      \<and> - 1 \<notin> set (flippedCards (after twoWords signIn))
      \<and> \<not> (0 \<le> (- 1::int) \<and> - 1 < int (length (cards (after twoWords signIn))))"
    by code_simp
  from r a b c show ?thesis
    using handleCardClick_needs_index_in_range [of twoWords "after twoWords signIn" 3]
      handleCardClick_needs_index_in_range [of twoWords "after twoWords signIn" 4]
      handleCardClick_needs_index_in_range [of twoWords "after twoWords signIn" "- 1"]
    by blast
qed

section \<open>Callbacks and the reset\<close>



section \<open>Submitting once a session\<close>

text \<open>
  A step posts at most one result, and only when it turns \<open>isGameOver\<close> from false
  to true; once true, the flag stays true until the next Start Training. So no session
  posts its result twice.
\<close>

lemma handleCardClick_requests:
  assumes "handleCardClick i s = Inr s'"
  shows "requests s' = requests s \<and> submitStatus s' = submitStatus s"
  using assms
  by (simp add: handleCardClick_def Let_def playFlip_def playSound_def
      split: if_splits option.splits) auto

lemma fireTimeout_requests:
  assumes "fireTimeout k s = Inr s'"
  shows "requests s' = requests s \<and> submitStatus s' = submitStatus s"
  using assms
  by (simp add: fireTimeout_def Let_def playMatch_def playError_def playSound_def
      split: if_splits option.splits timeout.splits) auto

lemma handler_requests:
  assumes "handler V e s = Inr h"
  shows "requests h = requests s"
proof (cases e)
  case (CardClick i)
  with assms show ?thesis by (simp add: handleCardClick_requests)
next
  case (Timeout k)
  with assms show ?thesis by (simp add: fireTimeout_requests)
next
  case (StartTraining r1 r2)
  with assms show ?thesis by (auto simp: initGame_def initAudio_def Let_def)
next
  case (FetchSettled ok)
  with assms show ?thesis by (auto simp: fetchSettled_def)
qed (use assms in auto)

lemma request_only_when_game_ends:
  assumes "step V e s = Inr s'"
  shows "requests s' = requests s
       \<or> (\<not> isGameOver (gameState s) \<and> isGameOver (gameState s')
          \<and> requests s' = requests s @ [sheetRow (gameState s')])"
proof -
  from assms obtain h where h: "handler V e s = Inr h" and s': "s' = runEffects s h"
    by (auto simp: step_def split: sum.splits)
  from handler_requests [OF h] s' show ?thesis
    by (auto simp: runEffects_def submitResultToSheet_def)
qed

lemma game_over_stays:
  assumes R: "reachable V s" and O: "isGameOver (gameState s)" and E: "enabled e s"
    and S: "step V e s = Inr s'" and N: "\<forall>r1 r2. e \<noteq> StartTraining r1 r2"
  shows "isGameOver (gameState s')"
proof -
  from R have I: "inv s" by (rule reachable_inv)
  with O have T: "timeouts s = []" by (auto simp: inv_def split: if_splits)
  from S obtain h where h: "handler V e s = Inr h" and s': "s' = runEffects s h"
    by (auto simp: step_def split: sum.splits)
  have "isGameOver (gameState h)"
  proof (cases e)
    case (FetchSettled ok)
    with h O show ?thesis by (auto simp: fetchSettled_def)
  qed (use h O E T N in auto)
  with s' show ?thesis by simp
qed

text \<open>
  C6 fails on this run. The first game on the one-word table ends and its result is
  posted. The learner presses New Challenge and Start Training while that request is
  still awaited; \<open>initGame\<close> sets the status to idle, then the request resolves and
  the continuation of the first \<open>submitResultToSheet\<close> sets it to success. When the
  second game ends, the effect runs \<open>submitResultToSheet\<close>, which returns at its
  guard: the second result is never posted. When the request resolves before the second
  game starts, both results are posted.
\<close>

theorem second_result_not_submitted:
  "exec oneWord secondGame initialApp = Some (after oneWord secondGame)
   \<and> isGameOver (gameState (after oneWord pairMatched))
   \<and> length (requests (after oneWord pairMatched)) = 1
   \<and> \<not> isGameOver (gameState (after oneWord secondGameFlipped))
   \<and> submitStatus (after oneWord secondGameFlipped) = Success
   \<and> isGameOver (gameState (after oneWord secondGame))
   \<and> length (requests (after oneWord secondGame)) = 1
   \<and> exec oneWord secondGameInOrder initialApp = Some (after oneWord secondGameInOrder)
   \<and> length (requests (after oneWord secondGameInOrder)) = 2"
  by code_simp

section \<open>The deck\<close>

lemma mset_shuffle_with: "mset (shuffle_with rs xs) = mset xs"
proof (induction rs xs rule: shuffle_with.induct)
  case (3 r rs x xs)
  let ?ys = "x # xs"
  let ?k = "r mod length ?ys"
  have k: "?k < length ?ys" by simp
  from id_take_nth_drop [OF k]
  have "mset ?ys = mset (take ?k ?ys @ ?ys ! ?k # drop (Suc ?k) ?ys)" by simp
  also have "\<dots> = add_mset (?ys ! ?k) (mset (take ?k ?ys @ drop (Suc ?k) ?ys))" by simp
  finally show ?case using 3 by (simp add: Let_def)
qed simp_all

lemma length_shuffle_with: "length (shuffle_with rs xs) = length xs"
  using mset_shuffle_with [of rs xs] by (metis size_mset)

lemma set_shuffle_with: "set (shuffle_with rs xs) = set xs"
  using mset_shuffle_with [of rs xs] by (metis set_mset_mset)

lemma length_filter_shuffle_with:
  "length (filter P (shuffle_with rs xs)) = length (filter P xs)"
proof -
  have "mset (filter P (shuffle_with rs xs)) = mset (filter P xs)"
    by (simp add: mset_shuffle_with)
  then show ?thesis by (metis size_mset)
qed

lemma distinct_map_shuffle_with:
  "distinct (map f (shuffle_with rs xs)) = distinct (map f xs)"
proof -
  have "mset (map f (shuffle_with rs xs)) = mset (map f xs)"
    by (simp add: mset_shuffle_with)
  then show ?thesis by (rule mset_eq_imp_distinct_iff)
qed

lemma length_gameCards: "length (gameCards m pool) = 2 * length pool"
  by (induction pool) simp_all

lemma vocabId_gameCards: "vocabId ` set (gameCards m pool) = id_vocab ` set pool"
  by (induction pool) (auto simp: termCard_def matchCard_def)

lemma gameCards_term:
  "length (filter (\<lambda>c. vocabId c = v \<and> cardType c = TermCard) (gameCards m pool))
     = length (filter (\<lambda>i. id_vocab i = v) pool)"
  by (induction pool) (simp_all add: termCard_def matchCard_def)

lemma gameCards_match:
  "length (filter (\<lambda>c. vocabId c = v \<and> cardType c = MatchCard) (gameCards m pool))
     = length (filter (\<lambda>i. id_vocab i = v) pool)"
  by (induction pool) (simp_all add: termCard_def matchCard_def)

lemma gameCards_both:
  "length (filter (\<lambda>c. vocabId c = v) (gameCards m pool))
     = 2 * length (filter (\<lambda>i. id_vocab i = v) pool)"
  by (induction pool) (simp_all add: termCard_def matchCard_def)

lemma distinct_once:
  "distinct (map f xs) \<Longrightarrow> x \<in> set xs \<Longrightarrow> length (filter (\<lambda>i. f i = f x) xs) = 1"
proof (induction xs)
  case Nil
  then show ?case by simp
next
  case (Cons a xs)
  show ?case
  proof (cases "a = x")
    case True
    with Cons.prems have "f x \<notin> f ` set xs" by simp
    then have "\<forall>i \<in> set xs. f i \<noteq> f x" by (metis imageI)
    then have "filter (\<lambda>i. f i = f x) xs = []"
      by (simp add: filter_empty_conv)
    with True show ?thesis by simp
  next
    case False
    with Cons show ?thesis by auto
  qed
qed

text \<open>
  C4. For every vocabulary table, list, difficulty and outcome of the two shuffles, the
  deck that \<open>initGame\<close> builds has length \<open>2 * min count |pool|\<close>, where \<open>count\<close>
  is 20 when the difficulty includes \<open>Hard\<close>, else 15 when it includes \<open>Medium\<close>,
  else 10 (so 10, 15, 20 for Easy, Medium, Hard), and \<open>|pool|\<close> is the length of the
  selected list: a list shorter than \<open>count\<close> is used whole, and the length is
  even. When the ids of the
  list are unique, as the data model has them, every \<open>vocabId\<close> of the deck is on
  exactly two cards, one term card and one match card.
\<close>

theorem initGame_deck:
  "length (cards (initGame V r1 r2 s))
     = 2 * min (wordCount (difficulty (gameState s)))
               (length (V (selectedList (gameState s))))
   \<and> even (length (cards (initGame V r1 r2 s)))
   \<and> wordCount (difficulty (gameState s))
       = (if includes_str (difficulty (gameState s)) ''Hard'' then 20
          else if includes_str (difficulty (gameState s)) ''Medium'' then 15 else 10)
   \<and> wordCount Difficulty_Easy = 10 \<and> wordCount Difficulty_Medium = 15
   \<and> wordCount Difficulty_Hard = 20
   \<and> (distinct (map id_vocab (V (selectedList (gameState s)))) \<longrightarrow>
       (\<forall>v \<in> vocabId ` set (cards (initGame V r1 r2 s)).
          length (filter (\<lambda>c. vocabId c = v) (cards (initGame V r1 r2 s))) = 2
        \<and> length (filter (\<lambda>c. vocabId c = v \<and> cardType c = TermCard)
                   (cards (initGame V r1 r2 s))) = 1
        \<and> length (filter (\<lambda>c. vocabId c = v \<and> cardType c = MatchCard)
                   (cards (initGame V r1 r2 s))) = 1))"
proof -
  define pool where
    "pool = take (wordCount (difficulty (gameState s)))
              (shuffle_with r1 (V (selectedList (gameState s))))"
  have deck: "cards (initGame V r1 r2 s) = shuffle_with r2 (gameCards (mode (gameState s)) pool)"
    by (simp add: initGame_def Let_def pool_def)
  have len: "length pool = min (wordCount (difficulty (gameState s)))
                               (length (V (selectedList (gameState s))))"
    by (simp add: pool_def length_shuffle_with min.commute)
  have pairs: "length (filter (\<lambda>c. vocabId c = v) (cards (initGame V r1 r2 s))) = 2
        \<and> length (filter (\<lambda>c. vocabId c = v \<and> cardType c = TermCard)
                   (cards (initGame V r1 r2 s))) = 1
        \<and> length (filter (\<lambda>c. vocabId c = v \<and> cardType c = MatchCard)
                   (cards (initGame V r1 r2 s))) = 1"
    if d: "distinct (map id_vocab (V (selectedList (gameState s))))"
      and v: "v \<in> vocabId ` set (cards (initGame V r1 r2 s))" for v
  proof -
    from d have "distinct (map id_vocab (shuffle_with r1 (V (selectedList (gameState s)))))"
      by (simp add: distinct_map_shuffle_with)
    then have dp: "distinct (map id_vocab pool)"
      unfolding pool_def by (simp add: take_map [symmetric] del: take_map)
    from v have "v \<in> id_vocab ` set pool"
      by (simp add: deck set_shuffle_with vocabId_gameCards)
    then obtain item where item: "item \<in> set pool" "v = id_vocab item"
      by auto
    from distinct_once [OF dp item(1)] item(2)
    have one: "length (filter (\<lambda>i. id_vocab i = v) pool) = 1" by simp
    then show ?thesis
      by (simp add: deck length_filter_shuffle_with gameCards_both gameCards_term gameCards_match)
  qed
  from pairs show ?thesis
    by (simp add: deck length_shuffle_with length_gameCards len wordCount_def
        Difficulty_Easy_def Difficulty_Medium_def Difficulty_Hard_def)
qed

theorem initGame_deck_witness:
  "length (cards (initGame twoWords [1, 0] [2, 5, 1] initialApp)) = 4
   \<and> length (filter (\<lambda>c. vocabId c = ''a2'') (cards (initGame twoWords [1, 0] [2, 5, 1] initialApp))) = 2
   \<and> length (filter (\<lambda>c. vocabId c = ''a2'' \<and> cardType c = TermCard)
        (cards (initGame twoWords [1, 0] [2, 5, 1] initialApp))) = 1
   \<and> length (filter (\<lambda>c. vocabId c = ''a2'' \<and> cardType c = MatchCard)
        (cards (initGame twoWords [1, 0] [2, 5, 1] initialApp))) = 1"
proof -
  have d: "distinct (map id_vocab (twoWords (selectedList (gameState initialApp))))"
    by code_simp
  have v: "''a2'' \<in> vocabId ` set (cards (initGame twoWords [1, 0] [2, 5, 1] initialApp))"
    by code_simp
  have n: "2 * min (wordCount (difficulty (gameState initialApp)))
               (length (twoWords (selectedList (gameState initialApp)))) = 4"
    by code_simp
  note deck = initGame_deck [of twoWords "[1, 0]" "[2, 5, 1]" initialApp]
  from deck n have "length (cards (initGame twoWords [1, 0] [2, 5, 1] initialApp)) = 4"
    by simp
  moreover from deck d v
  have "length (filter (\<lambda>c. vocabId c = ''a2'')
          (cards (initGame twoWords [1, 0] [2, 5, 1] initialApp))) = 2
      \<and> length (filter (\<lambda>c. vocabId c = ''a2'' \<and> cardType c = TermCard)
          (cards (initGame twoWords [1, 0] [2, 5, 1] initialApp))) = 1
      \<and> length (filter (\<lambda>c. vocabId c = ''a2'' \<and> cardType c = MatchCard)
          (cards (initGame twoWords [1, 0] [2, 5, 1] initialApp))) = 1"
    by blast
  ultimately show ?thesis by blast
qed

section \<open>Hints\<close>



text \<open>
  What the two copies settle with, case by case. The promise is rejected exactly when
  the lookup of the key throws; once the key is read, it resolves with a string: the
  fixed text for a missing key, the fixed text of the \<open>catch\<close> block when the service
  throws or rejects, the text of the answer, or "Match the terms to learn more." for an
  answer without text.
\<close>

lemma getVocabHint_outcomes:
  "(\<forall>e. process_env_API_KEY pr = Inl e \<longrightarrow> fst (getVocabHint pr svc word p) = Inl e)
   \<and> (\<forall>apiKey. process_env_API_KEY pr = Inr apiKey \<longrightarrow>
        (\<exists>str. fst (getVocabHint pr svc word p) = Inr str))
   \<and> (\<forall>apiKey. process_env_API_KEY pr = Inr apiKey \<and> \<not> truthy apiKey \<longrightarrow>
        fst (getVocabHint pr svc word p) = Inr ''Complete the match to learn this word!'')
   \<and> (\<forall>key e. process_env_API_KEY pr = Inr (Some key) \<and> key \<noteq> []
        \<and> svc (hintRequest key word p) = Inl e \<longrightarrow>
        fst (getVocabHint pr svc word p) = Inr ''Try matching the terms!'')
   \<and> (\<forall>key t. process_env_API_KEY pr = Inr (Some key) \<and> key \<noteq> []
        \<and> svc (hintRequest key word p) = Inr (Some t) \<and> t \<noteq> [] \<longrightarrow>
        fst (getVocabHint pr svc word p) = Inr t)
   \<and> (\<forall>key. process_env_API_KEY pr = Inr (Some key) \<and> key \<noteq> []
        \<and> (svc (hintRequest key word p) = Inr None \<or> svc (hintRequest key word p) = Inr (Some []))
        \<longrightarrow> fst (getVocabHint pr svc word p) = Inr ''Match the terms to learn more.'')"
proof -
  have 1: "\<forall>e. process_env_API_KEY pr = Inl e \<longrightarrow> fst (getVocabHint pr svc word p) = Inl e"
    by (simp add: getVocabHint_def)
  have 2: "\<forall>apiKey. process_env_API_KEY pr = Inr apiKey \<longrightarrow>
        (\<exists>str. fst (getVocabHint pr svc word p) = Inr str)"
    by (simp add: getVocabHint_def split: option.splits sum.splits)
  have 3: "\<forall>apiKey. process_env_API_KEY pr = Inr apiKey \<and> \<not> truthy apiKey \<longrightarrow>
        fst (getVocabHint pr svc word p) = Inr ''Complete the match to learn this word!''"
  proof (intro allI impI)
    fix apiKey
    assume "process_env_API_KEY pr = Inr apiKey \<and> \<not> truthy apiKey"
    then show "fst (getVocabHint pr svc word p) = Inr ''Complete the match to learn this word!''"
      by (cases apiKey) (simp_all add: getVocabHint_def)
  qed
  have 4: "\<forall>key e. process_env_API_KEY pr = Inr (Some key) \<and> key \<noteq> []
        \<and> svc (hintRequest key word p) = Inl e \<longrightarrow>
        fst (getVocabHint pr svc word p) = Inr ''Try matching the terms!''"
    by (simp add: getVocabHint_def tryGenerate_def)
  have 5: "\<forall>key t. process_env_API_KEY pr = Inr (Some key) \<and> key \<noteq> []
        \<and> svc (hintRequest key word p) = Inr (Some t) \<and> t \<noteq> [] \<longrightarrow>
        fst (getVocabHint pr svc word p) = Inr t"
    by (simp add: getVocabHint_def tryGenerate_def)
  have 6: "\<forall>key. process_env_API_KEY pr = Inr (Some key) \<and> key \<noteq> []
        \<and> (svc (hintRequest key word p) = Inr None \<or> svc (hintRequest key word p) = Inr (Some []))
        \<longrightarrow> fst (getVocabHint pr svc word p) = Inr ''Match the terms to learn more.''"
    by (auto simp: getVocabHint_def tryGenerate_def)
  show ?thesis
    by (intro conjI) (rule 1 2 3 4 5 6)+
qed

lemma getVocabHint_index_outcomes:
  "(\<forall>e. apiKey_index env = Inl e \<longrightarrow> fst (getVocabHint_index env svc word p) = Inl e)
   \<and> (\<forall>apiKey. apiKey_index env = Inr apiKey \<longrightarrow>
        (\<exists>str. fst (getVocabHint_index env svc word p) = Inr str))
   \<and> (\<forall>apiKey. apiKey_index env = Inr apiKey \<and> \<not> truthy apiKey \<longrightarrow>
        fst (getVocabHint_index env svc word p) = Inr ''Complete the match to learn this word!'')
   \<and> (\<forall>key e. apiKey_index env = Inr (Some key) \<and> key \<noteq> []
        \<and> svc (hintRequest key word p) = Inl e \<longrightarrow>
        fst (getVocabHint_index env svc word p) = Inr ''Keep matching! You are doing great!'')
   \<and> (\<forall>key t. apiKey_index env = Inr (Some key) \<and> key \<noteq> []
        \<and> svc (hintRequest key word p) = Inr (Some t) \<and> t \<noteq> [] \<longrightarrow>
        fst (getVocabHint_index env svc word p) = Inr t)
   \<and> (\<forall>key. apiKey_index env = Inr (Some key) \<and> key \<noteq> []
        \<and> (svc (hintRequest key word p) = Inr None \<or> svc (hintRequest key word p) = Inr (Some []))
        \<longrightarrow> fst (getVocabHint_index env svc word p) = Inr ''Match the terms to learn more.'')"
proof -
  have 1: "\<forall>e. apiKey_index env = Inl e \<longrightarrow> fst (getVocabHint_index env svc word p) = Inl e"
    by (simp add: getVocabHint_index_def)
  have 2: "\<forall>apiKey. apiKey_index env = Inr apiKey \<longrightarrow>
        (\<exists>str. fst (getVocabHint_index env svc word p) = Inr str)"
    by (simp add: getVocabHint_index_def split: option.splits sum.splits)
  have 3: "\<forall>apiKey. apiKey_index env = Inr apiKey \<and> \<not> truthy apiKey \<longrightarrow>
        fst (getVocabHint_index env svc word p) = Inr ''Complete the match to learn this word!''"
  proof (intro allI impI)
    fix apiKey
    assume "apiKey_index env = Inr apiKey \<and> \<not> truthy apiKey"
    then show "fst (getVocabHint_index env svc word p)
        = Inr ''Complete the match to learn this word!''"
      by (cases apiKey) (simp_all add: getVocabHint_index_def)
  qed
  have 4: "\<forall>key e. apiKey_index env = Inr (Some key) \<and> key \<noteq> []
        \<and> svc (hintRequest key word p) = Inl e \<longrightarrow>
        fst (getVocabHint_index env svc word p) = Inr ''Keep matching! You are doing great!''"
    by (simp add: getVocabHint_index_def tryGenerate_def)
  have 5: "\<forall>key t. apiKey_index env = Inr (Some key) \<and> key \<noteq> []
        \<and> svc (hintRequest key word p) = Inr (Some t) \<and> t \<noteq> [] \<longrightarrow>
        fst (getVocabHint_index env svc word p) = Inr t"
    by (simp add: getVocabHint_index_def tryGenerate_def)
  have 6: "\<forall>key. apiKey_index env = Inr (Some key) \<and> key \<noteq> []
        \<and> (svc (hintRequest key word p) = Inr None \<or> svc (hintRequest key word p) = Inr (Some []))
        \<longrightarrow> fst (getVocabHint_index env svc word p) = Inr ''Match the terms to learn more.''"
    by (auto simp: getVocabHint_index_def tryGenerate_def)
  show ?thesis
    by (intro conjI) (rule 1 2 3 4 5 6)+
qed

text \<open>
  C8 fails on a page whose \<open>process\<close> is an object without \<open>env\<close>. The statement at
  the top of the module keeps such an object, so in src/unnamed/part_000 the read of
  \<open>process.env.API_KEY\<close> throws a \<open>TypeError\<close>; in the copy of src/index.tsx, with no
  key on \<open>window.process\<close>, the right operand of the lookup reads the same property
  and throws as well. Both reads are before the \<open>try\<close>: the promise is rejected, with
  any service and for any term, and no fallback text is returned.
\<close>

theorem getVocabHint_rejects_without_env:
  "ensureProcess True ProcessNoEnv = ProcessNoEnv
   \<and> getVocabHint (ensureProcess True ProcessNoEnv) answering ''cat'' ''noun''
       = (Inl (Thrown ''TypeError''), [])
   \<and> getVocabHint (ensureProcess True ProcessNoEnv) offline ''cat'' ''noun''
       = (Inl (Thrown ''TypeError''), [])
   \<and> getVocabHint_index noEnv answering ''cat'' ''noun'' = (Inl (Thrown ''TypeError''), [])
   \<and> getVocabHint_index noEnv offline ''cat'' ''noun'' = (Inl (Thrown ''TypeError''), [])"
  by (simp add: ensureProcess_def getVocabHint_def getVocabHint_index_def apiKey_index_def
      process_env_API_KEY_def noEnv_def)

section \<open>The mute flag\<close>

lemma low_fields [simp]:
  "gameState (low s) = gameState s" "cards (low s) = cards s"
  "flippedCards (low s) = flippedCards s" "submitStatus (low s) = submitStatus s"
  "audioCtx (low s) = audioCtx s" "requests (low s) = requests s"
  "inflight (low s) = inflight s" "isMuted (low s) = False" "sounds (low s) = []"
  "timeouts (low s) = map unmute (timeouts s)"
  by (simp_all add: low_def)

lemma unmute_unmute [simp]: "unmute (unmute t) = unmute t"
  by (cases t) simp_all

lemma low_low [simp]: "low (low s) = low s"
  by (simp add: low_def)

lemma low_isMuted [simp]: "low (s\<lparr>isMuted := b\<rparr>) = low s"
  by (simp add: low_def)

lemma low_playSound [simp]: "low (playSound f ty d v s) = low s"
  by (simp add: low_def playSound_def)

lemma enabled_low [simp]: "enabled e (low s) = enabled e s"
  by (cases e) simp_all

lemma low_submit: "low (submitResultToSheet s) = submitResultToSheet (low s)"
  by (simp add: low_def submitResultToSheet_def)

lemma low_runEffects: "low (runEffects old new) = runEffects (low old) (low new)"
  by (simp add: runEffects_def low_submit)

lemma low_initGame: "low (initGame V r1 r2 s) = low (initGame V r1 r2 (low s))"
  by (simp add: initGame_def initAudio_def low_def Let_def)

lemma low_fetchSettled: "low (fetchSettled ok s) = low (fetchSettled ok (low s))"
  by (simp add: fetchSettled_def low_def)

lemma low_handleCardClick:
  "map_sum id low (handleCardClick i s) = map_sum id low (handleCardClick i (low s))"
proof (cases "length (flippedCards s) = 2 \<or> i \<in> set (flippedCards s)")
  case True
  then show ?thesis by (simp add: handleCardClick_def)
next
  case guard: False
  show ?thesis
  proof (cases "card_at (cards s) i")
    case None
    with guard show ?thesis by (simp add: handleCardClick_def)
  next
    case (Some c)
    show ?thesis
    proof (cases "vocabId c \<in> set (matchedPairs (gameState s))")
      case True
      with guard Some show ?thesis by (simp add: handleCardClick_def)
    next
      case fresh: False
      show ?thesis
      proof (cases "flippedCards s")
        case Nil
        with guard Some fresh show ?thesis
          by (simp add: handleCardClick_def Let_def playFlip_def playSound_def low_def)
      next
        case (Cons j js)
        show ?thesis
        proof (cases js)
          case Nil
          show ?thesis
          proof (cases "card_at (cards s) j")
            case None
            with guard Some fresh Cons Nil show ?thesis
              by (simp add: handleCardClick_def)
          next
            case a: (Some a)
            with guard Some fresh Cons Nil show ?thesis
              by (simp add: handleCardClick_def Let_def playFlip_def playSound_def low_def)
          qed
        next
          case more: (Cons j' js')
          with guard Some fresh Cons show ?thesis
            by (simp add: handleCardClick_def Let_def playFlip_def playSound_def low_def)
        qed
      qed
    qed
  qed
qed

lemma low_fireTimeout:
  "map_sum id low (fireTimeout k s) = map_sum id low (fireTimeout k (low s))"
proof (cases "k < length (timeouts s)")
  case True
  show ?thesis
  proof (cases "timeouts s ! k")
    case (MatchTimeout cs nf m)
    show ?thesis
    proof (cases "first_card cs nf")
      case None
      with True MatchTimeout show ?thesis
        by (simp add: fireTimeout_def)
    next
      case (Some c)
      with True MatchTimeout show ?thesis
        by (simp add: fireTimeout_def Let_def playMatch_def low_def playSound_def
            take_map drop_map)
    qed
  next
    case (MismatchTimeout m)
    with True show ?thesis
      by (simp add: fireTimeout_def Let_def playError_def low_def playSound_def
          take_map drop_map)
  qed
next
  case False
  then show ?thesis by (simp add: fireTimeout_def)
qed

lemma low_handler:
  "map_sum id low (handler V e s) = map_sum id low (handler V e (low s))"
proof (cases e)
  case (StartTraining r1 r2)
  then show ?thesis using low_initGame [of V r1 r2 s] by simp
next
  case (CardClick i)
  then show ?thesis using low_handleCardClick [of i s] by simp
next
  case (Timeout k)
  then show ?thesis using low_fireTimeout [of k s] by simp
next
  case (FetchSettled ok)
  then show ?thesis using low_fetchSettled [of ok s] by simp
qed (simp_all add: low_def)

lemma low_step:
  "map_sum id low (step V e s) = map_sum id low (step V e (low s))"
proof -
  note H = low_handler [of V e s]
  show ?thesis
  proof (cases "handler V e s")
    case (Inl f)
    with H have "handler V e (low s) = Inl f"
      by (cases "handler V e (low s)") simp_all
    with Inl show ?thesis by (simp add: step_def)
  next
    case (Inr h)
    with H obtain h' where h': "handler V e (low s) = Inr h'" "low h' = low h"
      by (cases "handler V e (low s)") simp_all
    with Inr show ?thesis
      by (simp add: step_def low_runEffects)
  qed
qed

lemma states_low:
  "low s = low t \<Longrightarrow> map low (states V es s) = map low (states V es t)"
proof (induction es arbitrary: s t)
  case Nil
  then show ?case by simp
next
  case (Cons e es)
  from Cons.prems have en: "enabled e s = enabled e t"
    by (metis enabled_low)
  from Cons.prems have st: "map_sum id low (step V e s) = map_sum id low (step V e t)"
    by (metis low_step)
  show ?case
  proof (cases "enabled e s")
    case False
    with en Cons.prems show ?thesis by simp
  next
    case True
    show ?thesis
    proof (cases "step V e s")
      case (Inl f)
      with st have "step V e t = Inl f"
        by (cases "step V e t") simp_all
      with Inl True en Cons.prems show ?thesis by simp
    next
      case (Inr s')
      with st obtain t' where t': "step V e t = Inr t'" "low s' = low t'"
        by (cases "step V e t") simp_all
      from Cons.IH [OF t'(2)] Inr t' True en Cons.prems show ?thesis by simp
    qed
  qed
qed

lemma gameView_low: "gameView (low s) = gameView s"
  by (simp add: gameView_def)

text \<open>
  C10. Two runs from states that differ in \<open>isMuted\<close> only, fed the same events
  (clicks, callbacks, ticks, the draws of Start Training, and all the others), pass
  through the same number of states, and at every step agree on \<open>gameState\<close> (score,
  timer, matched list, game-over flag and the rest), on the deck and on the selection.
\<close>

theorem mute_does_not_interfere:
  "map gameView (states V es (s\<lparr>isMuted := b\<rparr>)) = map gameView (states V es s)"
proof -
  have "map low (states V es (s\<lparr>isMuted := b\<rparr>)) = map low (states V es s)"
    by (rule states_low) simp
  then have "map gameView (map low (states V es (s\<lparr>isMuted := b\<rparr>)))
           = map gameView (map low (states V es s))"
    by simp
  then show ?thesis
    by (simp add: gameView_low comp_def)
qed

theorem mute_does_not_interfere_witness:
  "map gameView (states twoWords pairMatched (initialApp\<lparr>isMuted := True\<rparr>))
     = map gameView (states twoWords pairMatched initialApp)
   \<and> length (states twoWords pairMatched initialApp) = 7
   \<and> sounds (last (states twoWords pairMatched (initialApp\<lparr>isMuted := True\<rparr>))) = []
   \<and> length (sounds (last (states twoWords pairMatched initialApp))) = 4"
proof -
  have "length (states twoWords pairMatched initialApp) = 7
   \<and> sounds (last (states twoWords pairMatched (initialApp\<lparr>isMuted := True\<rparr>))) = []
   \<and> length (sounds (last (states twoWords pairMatched initialApp))) = 4"
    by code_simp
  with mute_does_not_interfere [of twoWords pairMatched True initialApp] show ?thesis
    by (intro conjI) simp_all
qed

end
